theory Spec2Isabelle
  imports Main "HOL-Library.AList"
begin

section \<open>Python values\<close>

text \<open>
  The payloads handled by pytwot are decoded JSON: nested dictionaries, lists and scalars.
  A dictionary is an association list in insertion order (Python dictionaries keep it,
  and \<open>Event.__init__\<close> depends on it); \<open>AList.update\<close> is Python's \<open>d[k] = v\<close>:
  it replaces the value of a key that is present, in place, and appends a new key.
  A float is kept as far as \<open>int\<close> and truthiness can tell floats apart: a finite float
  is \<open>m * 2 ^ e\<close>. \<open>VObject\<close> is the builtin class \<open>object\<close>, which \<open>utils.convert\<close>
  returns when a conversion fails.
\<close>

datatype pyfloat = Finite int int | Infinity bool | NaN

datatype "value" =
    VNone
  | VBool bool
  | VInt int
  | VFloat pyfloat
  | VStr string
  | VList "value list"
  | VDict "(string \<times> value) list"
  | VObject

type_synonym dict = "(string \<times> value) list"

datatype error =
    NoPageAvailable
  | HTTPException
  | AttributeError
  | TypeError
  | ValueError
  | IndexError
  | KeyError
  | OverflowError

text \<open>\<open>bool(v)\<close>, as \<open>if not v\<close> evaluates it.\<close>

fun truthy :: "value \<Rightarrow> bool" where
  "truthy VNone = False"
| "truthy (VBool b) = b"
| "truthy (VInt n) = (n \<noteq> 0)"
| "truthy (VFloat (Finite m e)) = (m \<noteq> 0)"
| "truthy (VFloat (Infinity s)) = True"
| "truthy (VFloat NaN) = True"
| "truthy (VStr s) = (s \<noteq> [])"
| "truthy (VList xs) = (xs \<noteq> [])"
| "truthy (VDict d) = (d \<noteq> [])"
| "truthy VObject = True"

text \<open>\<open>d.get(k)\<close> on a dictionary: the value, or \<open>None\<close> for a missing key.\<close>

definition dict_get :: "dict \<Rightarrow> string \<Rightarrow> value" where
  "dict_get d k = (case map_of d k of None \<Rightarrow> VNone | Some v \<Rightarrow> v)"

text \<open>\<open>k in d.keys()\<close>.\<close>

definition has_key :: "dict \<Rightarrow> string \<Rightarrow> bool" where
  "has_key d k = (k \<in> set (map fst d))"

text \<open>
  \<open>v.get(k)\<close> on any value: only a dictionary has the method, every other value of the
  model raises \<open>AttributeError\<close>.
\<close>

fun py_get :: "value \<Rightarrow> string \<Rightarrow> error + value" where
  "py_get (VDict d) k = Inr (dict_get d k)"
| "py_get v k = Inl AttributeError"

text \<open>
  \<open>v[0]\<close>: the first element of a list or the first character of a string
  (\<open>IndexError\<close> when empty); a dictionary of the model has string keys only, so key \<open>0\<close> is
  a \<open>KeyError\<close>; the other values are not subscriptable.
\<close>

fun py_index0 :: "value \<Rightarrow> error + value" where
  "py_index0 (VList []) = Inl IndexError"
| "py_index0 (VList (x # xs)) = Inr x"
| "py_index0 (VStr []) = Inl IndexError"
| "py_index0 (VStr (c # cs)) = Inr (VStr [c])"
| "py_index0 (VDict d) = Inl KeyError"
| "py_index0 v = Inl TypeError"

text \<open>
  \<open>for x in v\<close>: the elements of a list, the keys of a dictionary, the characters of a
  string; the other values are not iterable.
\<close>

fun py_iter :: "value \<Rightarrow> error + value list" where
  "py_iter (VList xs) = Inr xs"
| "py_iter (VDict d) = Inr (map (\<lambda>kv. VStr (fst kv)) d)"
| "py_iter (VStr s) = Inr (map (\<lambda>c. VStr [c]) s)"
| "py_iter v = Inl TypeError"

text \<open>\<open>v[k] = x\<close>: item assignment with a string key works on a dictionary only.\<close>

fun py_setitem :: "value \<Rightarrow> string \<Rightarrow> value \<Rightarrow> error + value" where
  "py_setitem (VDict d) k x = Inr (VDict (AList.update k x d))"
| "py_setitem v k x = Inl TypeError"

subsection \<open>The builtin \<open>int\<close>\<close>

text \<open>
  A character of the model is a code point below 256. \<open>int(s)\<close> on a string skips
  whitespace at both ends, reads an optional sign and then decimal digits, where single
  underscores may stand between digits. The whitespace of \<open>int\<close> is the ASCII characters
  9 to 13 and 32 and, of the other code points below 256, 133 and 160; the separators 28
  to 31, which \<open>str.strip\<close> removes, are no whitespace for \<open>int\<close>. Below 256 the decimal
  digits are the ASCII ones. A string with more digits than the interpreter's limit
  (\<open>sys.int_info.default_max_str_digits\<close>, 4300) raises \<open>ValueError\<close> as well.
\<close>

definition is_space :: "char \<Rightarrow> bool" where
  "is_space c = (of_char c \<in> set [9, 10, 11, 12, 13, 32, 133, 160 :: nat])"

definition is_digit :: "char \<Rightarrow> bool" where
  "is_digit c = (48 \<le> (of_char c :: nat) \<and> (of_char c :: nat) \<le> 57)"

definition strip :: "string \<Rightarrow> string" where
  "strip s = rev (dropWhile is_space (rev (dropWhile is_space s)))"

fun parse_digits :: "string \<Rightarrow> bool \<Rightarrow> nat \<Rightarrow> nat option" where
  "parse_digits [] prev acc = (if prev then Some acc else None)"
| "parse_digits (c # cs) prev acc =
     (if is_digit c then parse_digits cs True (10 * acc + (of_char c - 48))
      else if c = CHR ''_'' \<and> prev then parse_digits cs False acc
      else None)"

definition int_max_str_digits :: nat where
  "int_max_str_digits = 4300"

definition int_of_string :: "string \<Rightarrow> error + int" where
  "int_of_string s =
     (if int_max_str_digits < length (filter is_digit (strip s)) then Inl ValueError
      else
        (case strip s of
           [] \<Rightarrow> Inl ValueError
         | c # cs \<Rightarrow>
             if c = CHR ''-'' then
               (case parse_digits cs False 0 of None \<Rightarrow> Inl ValueError | Some n \<Rightarrow> Inr (- int n))
             else if c = CHR ''+'' then
               (case parse_digits cs False 0 of None \<Rightarrow> Inl ValueError | Some n \<Rightarrow> Inr (int n))
             else
               (case parse_digits (c # cs) False 0 of None \<Rightarrow> Inl ValueError | Some n \<Rightarrow> Inr (int n))))"

text \<open>
  \<open>int(x)\<close> on a finite float truncates towards zero; an infinite float raises
  \<open>OverflowError\<close> and a NaN \<open>ValueError\<close>.
\<close>

definition trunc_float :: "int \<Rightarrow> int \<Rightarrow> int" where
  "trunc_float m e =
     (if 0 \<le> e then m * 2 ^ nat e
      else if 0 \<le> m then m div 2 ^ nat (- e)
      else - ((- m) div 2 ^ nat (- e)))"

fun py_int :: "value \<Rightarrow> error + int" where
  "py_int (VInt n) = Inr n"
| "py_int (VBool b) = Inr (if b then 1 else 0)"
| "py_int (VFloat (Finite m e)) = Inr (trunc_float m e)"
| "py_int (VFloat (Infinity s)) = Inl OverflowError"
| "py_int (VFloat NaN) = Inl ValueError"
| "py_int (VStr s) = int_of_string s"
| "py_int v = Inl TypeError"

text \<open>The builtin as a callable that returns a Python value, as \<open>convert\<close> receives it.\<close>

definition int_callable :: "value \<Rightarrow> error + value" where
  "int_callable v = (case py_int v of Inl e \<Rightarrow> Inl e | Inr n \<Rightarrow> Inr (VInt n))"

section \<open>utils.py\<close>

text \<open>
  \<open>convert(o, annotations)\<close>: the result of the call, \<open>object\<close> when the call raises
  \<open>ValueError\<close> or \<open>TypeError\<close>; any other exception leaves the function.
\<close>

definition convert :: "'a \<Rightarrow> ('a \<Rightarrow> error + value) \<Rightarrow> error + value" where
  "convert obj annotations =
     (case annotations obj of
        Inr r \<Rightarrow> Inr r
      | Inl ValueError \<Rightarrow> Inr VObject
      | Inl TypeError \<Rightarrow> Inr VObject
      | Inl e \<Rightarrow> Inl e)"

section \<open>parser.py: PayloadParser\<close>

text \<open>
  A parser that writes into its argument is modelled by state passing: it returns its
  outcome together with the contents of the argument dictionary after the call.
\<close>

text \<open>
  \<open>parse_user_payload\<close> works on \<open>payload.copy()\<close>; every assignment goes to the copy,
  and the argument is handed back as it came.
\<close>

definition parse_user_payload :: "dict \<Rightarrow> dict \<times> dict" where
  "parse_user_payload payload =
     (let copy0 = payload;
          copy1 = AList.update ''public_metrics''
                    (VDict [(''followers_count'', dict_get copy0 ''followers_count''),
                            (''following_count'', dict_get copy0 ''friends_count''),
                            (''tweet_count'', dict_get copy0 ''statuses_count''),
                            (''listed_count'', VInt 0)]) copy0;
          copy2 = (if has_key copy1 ''created_timestamp''
                   then AList.update ''created_at'' (dict_get copy1 ''created_timestamp'') copy1
                   else copy1);
          copy3 = (if has_key copy2 ''screen_name''
                   then AList.update ''username'' (dict_get copy2 ''screen_name'') copy2
                   else copy2);
          copy4 = (if has_key copy3 ''profile_image_url_https''
                   then AList.update ''profile_image_url''
                          (dict_get copy3 ''profile_image_url_https'') copy3
                   else copy3)
      in (copy4, payload))"




text \<open>\<open>payload.get("includes", {}).get("users", [None])[0]\<close>.\<close>

definition page_author :: "dict \<Rightarrow> error + value" where
  "page_author payload =
     (case (case map_of payload ''includes'' of None \<Rightarrow> VDict [] | Some v \<Rightarrow> v) of
        VDict includes \<Rightarrow>
          py_index0 (case map_of includes ''users'' of None \<Rightarrow> VList [VNone] | Some us \<Rightarrow> us)
      | _ \<Rightarrow> Inl AttributeError)"

text \<open>The loop of \<open>insert_pagination_object_author\<close>, \<open>fulldata\<close> being the accumulator.\<close>

fun insert_author_loop :: "dict \<Rightarrow> value list \<Rightarrow> value list \<Rightarrow> error + value list" where
  "insert_author_loop payload [] fulldata = Inr fulldata"
| "insert_author_loop payload (data # rest) fulldata =
     (case page_author payload of
        Inl e \<Rightarrow> Inl e
      | Inr u \<Rightarrow>
          insert_author_loop payload rest
            (fulldata @ [VDict [(''data'', data), (''includes'', VDict [(''users'', VList [u])])]]))"

definition insert_pagination_object_author :: "dict \<Rightarrow> error + value list" where
  "insert_pagination_object_author payload =
     (case map_of payload ''data'' of
        None \<Rightarrow> Inl KeyError
      | Some d \<Rightarrow>
          (case py_iter d of
             Inl e \<Rightarrow> Inl e
           | Inr items \<Rightarrow> insert_author_loop payload items []))"

text \<open>The loop of \<open>parse_metric_data\<close> over \<open>payload.items()\<close>, \<open>d\<close> being the accumulator.\<close>

fun metric_loop :: "dict \<Rightarrow> dict \<Rightarrow> error + dict" where
  "metric_loop [] d = Inr d"
| "metric_loop ((k, v) # rest) d =
     (case convert v int_callable of
        Inl e \<Rightarrow> Inl e
      | Inr c \<Rightarrow> metric_loop rest (AList.update k c d))"

definition parse_metric_data :: "dict \<Rightarrow> error + dict" where
  "parse_metric_data payload = metric_loop payload []"

section \<open>events.py: Event\<close>

text \<open>
  \<open>Event.__init__\<close> keeps \<open>list(data.keys())[1]\<close> as \<open>_type\<close> and \<open>data.get(_type)[0]\<close>
  as \<open>_payload\<close>; with fewer than two keys the subscript raises \<open>IndexError\<close>.
\<close>

record event =
  ev_type :: string
  ev_payload :: "value"

definition Event_init :: "dict \<Rightarrow> error + event" where
  "Event_init data =
     (case map fst data of
        k0 # k1 # ks \<Rightarrow>
          (case py_index0 (dict_get data k1) of
             Inl e \<Rightarrow> Inl e
           | Inr body \<Rightarrow> Inr \<lparr>ev_type = k1, ev_payload = body\<rparr>)
      | _ \<Rightarrow> Inl IndexError)"

section \<open>parser.py: EventParser.parse_tweet_delete\<close>

text \<open>
  The classes \<open>Tweet\<close> and \<open>Message\<close> and the HTTP client are not part of the sources at
  hand. A tweet is a value of a type parameter, with the two things \<open>parse_tweet_delete\<close>
  does to it as parameters: its truth value and the assignment of \<open>deleted_timestamp\<close>.
  \<open>Message(text, id, type)\<close> is kept as the constructor call with its three arguments.
\<close>

record 'tweet tweet_class =
  tweet_bool :: "'tweet \<Rightarrow> bool"
  set_deleted_timestamp :: "'tweet \<Rightarrow> int \<Rightarrow> 'tweet"

datatype 'tweet dispatch_arg = Message "value" "value" "value" | TweetArg 'tweet

record 'tweet http_client =
  tweet_cache :: "(int \<times> 'tweet) list"
  dispatched :: "(string \<times> 'tweet dispatch_arg) list"

text \<open>
  Modelled from the spec: \<open>HTTPClient.dispatch\<close> is missing; the Dispatcher routes one
  event to the handlers registered for its channel name. The model records the channel
  and the event, in the order of the calls, and leaves the handlers out.
\<close>

definition dispatch :: "'tweet http_client \<Rightarrow> string \<Rightarrow> 'tweet dispatch_arg \<Rightarrow> 'tweet http_client" where
  "dispatch http channel arg = http\<lparr>dispatched := dispatched http @ [(channel, arg)]\<rparr>"

definition parse_tweet_delete ::
  "'tweet tweet_class \<Rightarrow> dict \<Rightarrow> 'tweet http_client \<Rightarrow> (error + unit) \<times> 'tweet http_client" where
  "parse_tweet_delete T tweet_payload http =
     (case py_index0 (dict_get tweet_payload ''tweet_delete_events'') of
        Inl e \<Rightarrow> (Inl e, http)
      | Inr event_payload \<Rightarrow>
     (case py_get event_payload ''status'' of
        Inl e \<Rightarrow> (Inl e, http)
      | Inr status \<Rightarrow>
     (case py_get status ''id'' of
        Inl e \<Rightarrow> (Inl e, http)
      | Inr tweet_id \<Rightarrow>
     (case py_int tweet_id of
        Inl e \<Rightarrow> (Inl e, http)
      | Inr n \<Rightarrow>
          (let placeholder = (Inr (), dispatch http ''tweet_delete'' (Message VNone tweet_id (VInt 1)))
           in (case map_of (tweet_cache http) n of
                 None \<Rightarrow> placeholder
               | Some tweet \<Rightarrow>
                   (if \<not> tweet_bool T tweet then placeholder
                    else
                      (let http1 = http\<lparr>tweet_cache := AList.delete n (tweet_cache http)\<rparr>
                       in (case py_get event_payload ''timestamp_ms'' of
                             Inl e \<Rightarrow> (Inl e, http1)
                           | Inr ts \<Rightarrow>
                               (case py_int ts of
                                  Inl e \<Rightarrow> (Inl e, http1)
                                | Inr t \<Rightarrow>
                                    (Inr (), dispatch http1 ''tweet_delete''
                                               (TweetArg (set_deleted_timestamp T tweet t)))))))))))))"

section \<open>paginations.py: Pagination and UserPagination\<close>

text \<open>
  The item class (\<open>User\<close> for a \<open>UserPagination\<close>) is not part of the sources at hand: its
  constructor, its \<open>id\<close> property and its \<open>==\<close> are parameters, each of which may raise.
\<close>

record ('id, 'item) item_class =
  item_type :: "value \<Rightarrow> error + 'item"
  item_id :: "'item \<Rightarrow> error + 'id"
  item_eq :: "'item \<Rightarrow> 'item \<Rightarrow> error + bool"

record http_request =
  req_method :: string
  req_version :: string
  req_path :: string
  req_auth :: bool
  req_params :: "value"

text \<open>
  Modelled from the spec: \<open>HTTPClient.request\<close> is missing; the transport takes method,
  API version, path, auth and params and returns a payload or nothing. The server is a
  function of the requests made so far and of the current one; the client's state is
  the list of requests it has issued, so a call that leaves the list as it was has
  fetched nothing.
\<close>

type_synonym transport = "http_request list \<Rightarrow> http_request \<Rightarrow> error + value"

definition request :: "transport \<Rightarrow> http_request list \<Rightarrow> http_request \<Rightarrow> (error + value) \<times> http_request list" where
  "request srv issued rq = (srv issued rq, issued @ [rq])"

record ('id, 'item) pagination =
  original_payload :: "value"
  page_payload :: "value"
  meta :: "value"
  next_token :: "value"
  previous_token :: "value"
  count :: int
  paginate_over :: int
  current_page_number :: int
  params :: "value"
  endpoint_request :: string
  pages_cache :: "(int \<times> ('id \<times> 'item) list) list"

text \<open>The comprehension \<open>[self.item_type(data, ...) for data in ...]\<close>.\<close>

fun decode_all :: "(value \<Rightarrow> error + 'item) \<Rightarrow> value list \<Rightarrow> error + 'item list" where
  "decode_all f [] = Inr []"
| "decode_all f (x # xs) =
     (case f x of
        Inl e \<Rightarrow> Inl e
      | Inr y \<Rightarrow> (case decode_all f xs of Inl e \<Rightarrow> Inl e | Inr ys \<Rightarrow> Inr (y # ys)))"

text \<open>The property \<open>content\<close>.\<close>

definition content :: "('id, 'item) item_class \<Rightarrow> ('id, 'item) pagination \<Rightarrow> error + 'item list" where
  "content C self =
     (case py_iter (page_payload self) of
        Inl e \<Rightarrow> Inl e
      | Inr ds \<Rightarrow> decode_all (item_type C) ds)"

text \<open>The comprehension \<open>{obj.id: obj for obj in ...}\<close>, the dictionary being the accumulator.\<close>

fun dict_of_items :: "('item \<Rightarrow> error + 'id) \<Rightarrow> 'item list \<Rightarrow> ('id \<times> 'item) list \<Rightarrow> error + ('id \<times> 'item) list" where
  "dict_of_items idf [] d = Inr d"
| "dict_of_items idf (obj # objs) d =
     (case idf obj of
        Inl e \<Rightarrow> Inl e
      | Inr i \<Rightarrow> dict_of_items idf objs (AList.update i obj d))"

text \<open>
  \<open>Pagination.__init__\<close>; \<open>kw_params\<close> is \<open>kwargs.get("params", None)\<close>.
\<close>

definition Pagination_init ::
  "('id, 'item) item_class \<Rightarrow> value \<Rightarrow> string \<Rightarrow> value \<Rightarrow> error + ('id, 'item) pagination" where
  "Pagination_init C data endpoint kw_params =
     (case py_get data ''data'' of
        Inl e \<Rightarrow> Inl e
      | Inr pl \<Rightarrow>
     (case py_get data ''meta'' of
        Inl e \<Rightarrow> Inl e
      | Inr m \<Rightarrow>
     (case py_get m ''next_token'' of
        Inl e \<Rightarrow> Inl e
      | Inr nt \<Rightarrow>
     (case py_get m ''previous_token'' of
        Inl e \<Rightarrow> Inl e
      | Inr pt \<Rightarrow>
          (let self = \<lparr>original_payload = data, page_payload = pl, meta = m, next_token = nt,
                       previous_token = pt, count = 0, paginate_over = 0,
                       current_page_number = 1, params = kw_params,
                       endpoint_request = endpoint, pages_cache = []\<rparr>
           in (case content C self of
                 Inl e \<Rightarrow> Inl e
               | Inr objs \<Rightarrow>
                   (case dict_of_items (item_id C) objs [] of
                      Inl e \<Rightarrow> Inl e
                    | Inr d \<Rightarrow> Inr (self\<lparr>pages_cache := [(1, d)]\<rparr>))))))))"

text \<open>
  The request of \<open>next_page\<close> and \<open>previous_page\<close>:
  \<open>request("GET", "2", self.endpoint_request, auth=True, params=self._params)\<close>.
\<close>

definition page_request :: "('id, 'item) pagination \<Rightarrow> http_request" where
  "page_request self =
     \<lparr>req_method = ''GET'', req_version = ''2'', req_path = endpoint_request self,
      req_auth = True, req_params = params self\<rparr>"

text \<open>
  The assignments that take the response over (\<open>original_payload\<close>, \<open>payload\<close>, \<open>_meta\<close>,
  \<open>_next_token\<close>, \<open>_previous_token\<close>, \<open>_count\<close>) are the same six lines in \<open>next_page\<close> and
  in \<open>previous_page\<close>. An exception leaves the fields assigned before it.
\<close>

definition load_response ::
  "('id, 'item) pagination \<Rightarrow> value \<Rightarrow> (error + unit) \<times> ('id, 'item) pagination" where
  "load_response self res =
     (let self1 = self\<lparr>original_payload := res\<rparr>
      in (case py_get res ''data'' of
            Inl e \<Rightarrow> (Inl e, self1)
          | Inr d \<Rightarrow>
     (let self2 = self1\<lparr>page_payload := d\<rparr>
      in (case py_get res ''meta'' of
            Inl e \<Rightarrow> (Inl e, self2)
          | Inr m \<Rightarrow>
     (let self3 = self2\<lparr>meta := m\<rparr>
      in (case py_get m ''next_token'' of
            Inl e \<Rightarrow> (Inl e, self3)
          | Inr nt \<Rightarrow>
     (let self4 = self3\<lparr>next_token := nt\<rparr>
      in (case py_get m ''previous_token'' of
            Inl e \<Rightarrow> (Inl e, self4)
          | Inr pt \<Rightarrow> (Inr (), self4\<lparr>previous_token := pt, count := 0\<rparr>)))))))))"

text \<open>
  The last two lines, again the same in both methods:
  \<open>if not previous_content[0] == self.content[0]:\<close>
  \<open>self.pages_cache[len(self.pages_cache) + 1] = {user.id: user for user in self.content}\<close>.
\<close>

definition cache_page ::
  "('id, 'item) item_class \<Rightarrow> 'item list \<Rightarrow> ('id, 'item) pagination \<Rightarrow>
     (error + unit) \<times> ('id, 'item) pagination" where
  "cache_page C previous_content self =
     (case previous_content of
        [] \<Rightarrow> (Inl IndexError, self)
      | p0 # ps \<Rightarrow>
     (case content C self of
        Inl e \<Rightarrow> (Inl e, self)
      | Inr [] \<Rightarrow> (Inl IndexError, self)
      | Inr (c0 # cs) \<Rightarrow>
     (case item_eq C p0 c0 of
        Inl e \<Rightarrow> (Inl e, self)
      | Inr same \<Rightarrow>
          if \<not> same then
            (case content C self of
               Inl e \<Rightarrow> (Inl e, self)
             | Inr users \<Rightarrow>
                 (case dict_of_items (item_id C) users [] of
                    Inl e \<Rightarrow> (Inl e, self)
                  | Inr d \<Rightarrow>
                      (Inr (), self\<lparr>pages_cache :=
                                 AList.update (int (length (pages_cache self)) + 1) d
                                   (pages_cache self)\<rparr>)))
          else (Inr (), self))))"

text \<open>
  \<open>UserPagination.next_page\<close>. The result is the outcome of the call, the pagination
  object and the requests issued, both as the call leaves them.
\<close>

definition next_page ::
  "('id, 'item) item_class \<Rightarrow> transport \<Rightarrow> ('id, 'item) pagination \<Rightarrow> http_request list \<Rightarrow>
     (error + unit) \<times> ('id, 'item) pagination \<times> http_request list" where
  "next_page C srv self issued =
     (if \<not> truthy (next_token self) then (Inl NoPageAvailable, self, issued)
      else
        (case py_setitem (params self) ''pagination_token'' (next_token self) of
           Inl e \<Rightarrow> (Inl e, self, issued)
         | Inr ps \<Rightarrow>
             (let self1 = self\<lparr>params := ps\<rparr>;
                  issued1 = snd (request srv issued (page_request self1))
              in (case fst (request srv issued (page_request self1)) of
                    Inl e \<Rightarrow> (Inl e, self1, issued1)
                  | Inr res \<Rightarrow>
                      (if \<not> truthy res then (Inl NoPageAvailable, self1, issued1)
                       else
                         (case content C self1 of
                            Inl e \<Rightarrow> (Inl e, self1, issued1)
                          | Inr previous_content \<Rightarrow>
                              (let self2 = self1\<lparr>current_page_number := current_page_number self1 + 1\<rparr>
                               in (case load_response self2 res of
                                     (Inl e, self3) \<Rightarrow> (Inl e, self3, issued1)
                                   | (Inr u, self3) \<Rightarrow>
                                       (fst (cache_page C previous_content self3),
                                        snd (cache_page C previous_content self3),
                                        issued1)))))))))"

text \<open>\<open>UserPagination.previous_page\<close>.\<close>

definition previous_page ::
  "('id, 'item) item_class \<Rightarrow> transport \<Rightarrow> ('id, 'item) pagination \<Rightarrow> http_request list \<Rightarrow>
     (error + unit) \<times> ('id, 'item) pagination \<times> http_request list" where
  "previous_page C srv self issued =
     (if \<not> truthy (previous_token self) then (Inl NoPageAvailable, self, issued)
      else
        (case py_setitem (params self) ''pagination_token'' (previous_token self) of
           Inl e \<Rightarrow> (Inl e, self, issued)
         | Inr ps \<Rightarrow>
             (let self1 = self\<lparr>params := ps\<rparr>;
                  issued1 = snd (request srv issued (page_request self1))
              in (case fst (request srv issued (page_request self1)) of
                    Inl e \<Rightarrow> (Inl e, self1, issued1)
                  | Inr res \<Rightarrow>
                      (if \<not> truthy res then (Inl NoPageAvailable, self1, issued1)
                       else
                         (case content C self1 of
                            Inl e \<Rightarrow> (Inl e, self1, issued1)
                          | Inr previous_content \<Rightarrow>
                              (let self2 = self1\<lparr>current_page_number := current_page_number self1 - 1\<rparr>
                               in (case load_response self2 res of
                                     (Inl e, self3) \<Rightarrow> (Inl e, self3, issued1)
                                   | (Inr u, self3) \<Rightarrow>
                                       (fst (cache_page C previous_content self3),
                                        snd (cache_page C previous_content self3),
                                        issued1)))))))))"

section \<open>Sequences of page turns\<close>

text \<open>
  A caller turns pages one call after the other, each call on the object and the request
  log that the call before left, whether that call returned or raised.
\<close>

datatype call = NextPage | PreviousPage

fun call_page ::
  "('id, 'item) item_class \<Rightarrow> transport \<Rightarrow> call \<Rightarrow> ('id, 'item) pagination \<Rightarrow> http_request list \<Rightarrow>
     (error + unit) \<times> ('id, 'item) pagination \<times> http_request list" where
  "call_page C srv NextPage self issued = next_page C srv self issued"
| "call_page C srv PreviousPage self issued = previous_page C srv self issued"

fun run ::
  "('id, 'item) item_class \<Rightarrow> transport \<Rightarrow> call list \<Rightarrow> ('id, 'item) pagination \<Rightarrow> http_request list \<Rightarrow>
     (error + unit) list \<times> ('id, 'item) pagination \<times> http_request list" where
  "run C srv [] self issued = ([], self, issued)"
| "run C srv (c # cs) self issued =
     (case call_page C srv c self issued of
        (out, self1, issued1) \<Rightarrow>
          (case run C srv cs self1 issued1 of
             (outs, self2, issued2) \<Rightarrow> (out # outs, self2, issued2)))"

text \<open>What a call adds to the page number when it returns; a call that raises counts 0.\<close>

fun page_delta :: "call \<Rightarrow> error + unit \<Rightarrow> int" where
  "page_delta NextPage (Inr u) = 1"
| "page_delta PreviousPage (Inr u) = - 1"
| "page_delta c (Inl e) = 0"

text \<open>
  The keys of \<open>pages_cache\<close> are \<open>1, ..., len(pages_cache)\<close> in insertion order: then
  \<open>len(pages_cache) + 1\<close> is a key the cache does not hold.
\<close>

definition consecutive_keys :: "(int \<times> 'a) list \<Rightarrow> bool" where
  "consecutive_keys cache = (map fst cache = map int [1..<Suc (length cache)])"

text \<open>
  The request that a page turn issues once it has written the token into the parameters
  \<open>ps\<close>: \<open>request("GET", "2", endpoint, auth=True, params=ps)\<close> with
  \<open>ps["pagination_token"] = token\<close>.
\<close>

definition turn_request :: "string \<Rightarrow> value \<Rightarrow> dict \<Rightarrow> http_request" where
  "turn_request endpoint token ps =
     \<lparr>req_method = ''GET'', req_version = ''2'', req_path = endpoint, req_auth = True,
      req_params = VDict (AList.update ''pagination_token'' token ps)\<rparr>"

text \<open>
  The object that a page turn leaves when it returns: the parameters hold the token, the
  page number has moved by \<open>step\<close>, the response \<open>res\<close> with its meta \<open>m\<close> has been taken
  over and the cache is \<open>cache\<close>.
\<close>

definition turned ::
  "('id, 'item) pagination \<Rightarrow> value \<Rightarrow> dict \<Rightarrow> int \<Rightarrow> dict \<Rightarrow> dict \<Rightarrow>
     (int \<times> ('id \<times> 'item) list) list \<Rightarrow> ('id, 'item) pagination" where
  "turned self token ps step res m cache =
     self\<lparr>params := VDict (AList.update ''pagination_token'' token ps),
          current_page_number := current_page_number self + step,
          original_payload := VDict res,
          page_payload := dict_get res ''data'',
          meta := VDict m,
          next_token := dict_get m ''next_token'',
          previous_token := dict_get m ''previous_token'',
          count := 0,
          pages_cache := cache\<rparr>"

section \<open>Sample pages\<close>

text \<open>
  An item class that keeps the raw dictionary as the item, reads its \<open>id\<close> with \<open>get\<close> and
  compares items structurally; three pages of one user each; a server that answers the
  first request with the second page and every later one with the first page; a server
  that answers every request with the same page.
\<close>

definition raw_items :: "(value, value) item_class" where
  "raw_items = \<lparr>item_type = (\<lambda>data. Inr data),
                item_id = (\<lambda>obj. py_get obj ''id''),
                item_eq = (\<lambda>a b. Inr (a = b))\<rparr>"

definition page_one :: "value" where
  "page_one = VDict [(''data'', VList [VDict [(''id'', VInt 1)]]),
                     (''meta'', VDict [(''next_token'', VStr ''n'')])]"

definition page_two :: "value" where
  "page_two = VDict [(''data'', VList [VDict [(''id'', VInt 2)]]),
                     (''meta'', VDict [(''previous_token'', VStr ''p'')])]"

definition two_pages :: transport where
  "two_pages issued rq = (if issued = [] then Inr page_two else Inr page_one)"

definition page_with_previous :: "value" where
  "page_with_previous = VDict [(''data'', VList [VDict [(''id'', VInt 1)]]),
                               (''meta'', VDict [(''previous_token'', VStr ''p'')])]"

definition always :: "value \<Rightarrow> transport" where
  "always page issued rq = Inr page"

definition single_page :: "value" where
  "single_page = VDict [(''data'', VList [VDict [(''id'', VInt 1)]]),
                        (''meta'', VDict [(''result_count'', VInt 1)])]"

text \<open>
  The objects that the constructor and the calls leave on these pages, and the request
  that carries a pagination token.
\<close>

definition first_cursor :: "value \<Rightarrow> value \<Rightarrow> value \<Rightarrow> value \<Rightarrow> (value, value) pagination" where
  "first_cursor page m nt pt =
     \<lparr>original_payload = page,
      page_payload = VList [VDict [(''id'', VInt 1)]],
      meta = m, next_token = nt, previous_token = pt, count = 0, paginate_over = 0,
      current_page_number = 1, params = VDict [], endpoint_request = ''users'',
      pages_cache = [(1, [(VInt 1, VDict [(''id'', VInt 1)])])]\<rparr>"

definition token_request :: "string \<Rightarrow> http_request" where
  "token_request tok =
     \<lparr>req_method = ''GET'', req_version = ''2'', req_path = ''users'', req_auth = True,
      req_params = VDict [(''pagination_token'', VStr tok)]\<rparr>"

definition single_cursor :: "(value, value) pagination" where
  "single_cursor = first_cursor single_page (VDict [(''result_count'', VInt 1)]) VNone VNone"

definition page_one_cursor :: "(value, value) pagination" where
  "page_one_cursor = first_cursor page_one (VDict [(''next_token'', VStr ''n'')]) (VStr ''n'') VNone"

definition page_two_cursor :: "(value, value) pagination" where
  "page_two_cursor =
     \<lparr>original_payload = page_two,
      page_payload = VList [VDict [(''id'', VInt 2)]],
      meta = VDict [(''previous_token'', VStr ''p'')],
      next_token = VNone, previous_token = VStr ''p'', count = 0, paginate_over = 0,
      current_page_number = 2, params = VDict [(''pagination_token'', VStr ''n'')],
      endpoint_request = ''users'',
      pages_cache = [(1, [(VInt 1, VDict [(''id'', VInt 1)])]),
                     (2, [(VInt 2, VDict [(''id'', VInt 2)])])]\<rparr>"

definition round_trip_cursor :: "(value, value) pagination" where
  "round_trip_cursor =
     \<lparr>original_payload = page_one,
      page_payload = VList [VDict [(''id'', VInt 1)]],
      meta = VDict [(''next_token'', VStr ''n'')],
      next_token = VStr ''n'', previous_token = VNone, count = 0, paginate_over = 0,
      current_page_number = 1, params = VDict [(''pagination_token'', VStr ''p'')],
      endpoint_request = ''users'',
      pages_cache = [(1, [(VInt 1, VDict [(''id'', VInt 1)])]),
                     (2, [(VInt 2, VDict [(''id'', VInt 2)])]),
                     (3, [(VInt 1, VDict [(''id'', VInt 1)])])]\<rparr>"

definition previous_cursor :: "(value, value) pagination" where
  "previous_cursor =
     first_cursor page_with_previous (VDict [(''previous_token'', VStr ''p'')]) VNone (VStr ''p'')"

definition page_zero_cursor :: "(value, value) pagination" where
  "page_zero_cursor =
     previous_cursor\<lparr>current_page_number := 0,
                      params := VDict [(''pagination_token'', VStr ''p'')]\<rparr>"

text \<open>
  A response that lacks \<open>meta\<close>, and the object on which \<open>next_page\<close> raises when the
  server answers with it: the page number and the payload are those of the response,
  the tokens and the cache those of the first page.
\<close>

definition page_without_meta :: "value" where
  "page_without_meta = VDict [(''data'', VList [VDict [(''id'', VInt 2)]])]"

definition stuck_cursor :: "(value, value) pagination" where
  "stuck_cursor =
     \<lparr>original_payload = page_without_meta,
      page_payload = VList [VDict [(''id'', VInt 2)]],
      meta = VNone,
      next_token = VStr ''n'', previous_token = VNone, count = 0, paginate_over = 0,
      current_page_number = 2, params = VDict [(''pagination_token'', VStr ''n'')],
      endpoint_request = ''users'',
      pages_cache = [(1, [(VInt 1, VDict [(''id'', VInt 1)])])]\<rparr>"

text \<open>
  A second page that carries no previous token, a server that answers the first request
  with one page and every later request with another, and the object that \<open>next_page\<close>
  leaves on that second page.
\<close>

definition last_page :: "value" where
  "last_page = VDict [(''data'', VList [VDict [(''id'', VInt 2)]]),
                      (''meta'', VDict [(''result_count'', VInt 1)])]"

definition first_then :: "value \<Rightarrow> value \<Rightarrow> transport" where
  "first_then page later issued rq = (if issued = [] then Inr page else Inr later)"

definition last_page_cursor :: "(value, value) pagination" where
  "last_page_cursor =
     \<lparr>original_payload = last_page,
      page_payload = VList [VDict [(''id'', VInt 2)]],
      meta = VDict [(''result_count'', VInt 1)],
      next_token = VNone, previous_token = VNone, count = 0, paginate_over = 0,
      current_page_number = 2, params = VDict [(''pagination_token'', VStr ''n'')],
      endpoint_request = ''users'',
      pages_cache = [(1, [(VInt 1, VDict [(''id'', VInt 1)])]),
                     (2, [(VInt 2, VDict [(''id'', VInt 2)])])]\<rparr>"

section \<open>Dictionaries\<close>

lemma dict_get_update: "dict_get (AList.update k v d) k' = (if k' = k then v else dict_get d k')"
  by (simp add: dict_get_def update_conv')


lemma update_fresh: "k \<notin> fst ` set d \<Longrightarrow> AList.update k v d = d @ [(k, v)]"
  by (induction d) auto

section \<open>Properties of the payload parser\<close>

text \<open>
  C5. For every legacy user payload \<open>P\<close>, the mapping returned by \<open>parse_user_payload\<close>
  holds under \<open>public_metrics\<close> a sub-mapping whose \<open>followers_count\<close> is \<open>P\<close>'s
  \<open>followers_count\<close>, whose \<open>following_count\<close> is \<open>P\<close>'s \<open>friends_count\<close>, whose
  \<open>tweet_count\<close> is \<open>P\<close>'s \<open>statuses_count\<close> and whose \<open>listed_count\<close> is the constant 0
  (a counter that \<open>P\<close> lacks is read with \<open>get\<close> and so is \<open>None\<close>). The three renames that
  follow write other keys and leave the sub-mapping alone.
\<close>

theorem parse_user_payload_public_metrics:
  "dict_get (fst (parse_user_payload P)) ''public_metrics'' =
     VDict [(''followers_count'', dict_get P ''followers_count''),
            (''following_count'', dict_get P ''friends_count''),
            (''tweet_count'', dict_get P ''statuses_count''),
            (''listed_count'', VInt 0)]"
  by (simp add: parse_user_payload_def Let_def dict_get_update)

theorem parse_user_payload_public_metrics_witness:
  "dict_get (fst (parse_user_payload
       [(''id'', VInt 7), (''followers_count'', VInt 3), (''friends_count'', VInt 4),
        (''statuses_count'', VInt 5), (''screen_name'', VStr ''al'')])) ''public_metrics'' =
     VDict [(''followers_count'', VInt 3), (''following_count'', VInt 4),
            (''tweet_count'', VInt 5), (''listed_count'', VInt 0)]"
  using parse_user_payload_public_metrics
    [of "[(''id'', VInt 7), (''followers_count'', VInt 3), (''friends_count'', VInt 4),
          (''statuses_count'', VInt 5), (''screen_name'', VStr ''al'')]"]
  by (simp add: dict_get_def)

lemma insert_author_loop_ok:
  "page_author payload = Inr u \<Longrightarrow>
   insert_author_loop payload items acc =
     Inr (acc @ map (\<lambda>item. VDict [(''data'', item), (''includes'', VDict [(''users'', VList [u])])]) items)"
  by (induction items arbitrary: acc) simp_all

text \<open>
  C6, as the code has it. For every page payload whose \<open>data\<close> is a list of length \<open>N\<close> and
  whose \<open>includes.users\<close> is a list with a first element \<open>u\<close>,
  \<open>insert_pagination_object_author\<close> returns exactly \<open>N\<close> wrappers in the order of \<open>data\<close>,
  the \<open>i\<close>-th being \<open>{data: data[i], includes: {users: [u]}}\<close>: the one author is
  broadcast to every item.
\<close>

theorem insert_pagination_object_author_broadcast:
  assumes "map_of payload ''data'' = Some (VList items)"
      and "map_of payload ''includes'' = Some (VDict includes)"
      and "map_of includes ''users'' = Some (VList (u # us))"
  shows "insert_pagination_object_author payload =
           Inr (map (\<lambda>item. VDict [(''data'', item), (''includes'', VDict [(''users'', VList [u])])])
                  items)"
proof -
  have "page_author payload = Inr u"
    using assms(2,3) by (simp add: page_author_def)
  then show ?thesis
    using assms(1) by (simp add: insert_pagination_object_author_def insert_author_loop_ok)
qed

theorem insert_pagination_object_author_broadcast_witness:
  "insert_pagination_object_author
     [(''data'', VList [VInt 1, VInt 2]), (''includes'', VDict [(''users'', VList [VStr ''u''])])] =
   Inr [VDict [(''data'', VInt 1), (''includes'', VDict [(''users'', VList [VStr ''u''])])],
        VDict [(''data'', VInt 2), (''includes'', VDict [(''users'', VList [VStr ''u''])])]]"
  using insert_pagination_object_author_broadcast
    [of "[(''data'', VList [VInt 1, VInt 2]), (''includes'', VDict [(''users'', VList [VStr ''u''])])]"
        "[VInt 1, VInt 2]" "[(''users'', VList [VStr ''u''])]" "VStr ''u''" "[]"]
  by simp

text \<open>
  C6, as it is stated, asks for \<open>N\<close> wrappers from every payload whose \<open>data\<close> is a list
  of length \<open>N\<close>. With one item and an empty \<open>includes.users\<close> the subscript \<open>[0]\<close> raises
  \<open>IndexError\<close> and nothing is returned.
\<close>

theorem insert_pagination_object_author_empty_users:
  "insert_pagination_object_author
     [(''data'', VList [VInt 1]), (''includes'', VDict [(''users'', VList [])])] = Inl IndexError"
  by (simp add: insert_pagination_object_author_def page_author_def)

lemma int_of_string_separator:
  "int_of_string [CHR 0x1C, CHR ''4'', CHR ''2''] = Inl ValueError"
  "int_of_string [CHR ''1'', CHR ''2'', CHR 0x1F] = Inl ValueError"
  "int_of_string [CHR 0x09, CHR ''1'', CHR ''2'', CHR 0x0A] = Inr 12"
  by (simp_all add: int_of_string_def int_max_str_digits_def strip_def is_space_def is_digit_def)

lemma int_of_string_err: "int_of_string s = Inl e \<Longrightarrow> e = ValueError"
  by (auto simp: int_of_string_def split: list.splits if_splits option.splits)

lemma py_int_err: "py_int v = Inl e \<Longrightarrow> e = ValueError \<or> e = TypeError \<or> e = OverflowError"
proof (cases v)
  case (VFloat f)
  then show "py_int v = Inl e \<Longrightarrow> ?thesis" by (cases f) auto
qed (auto dest: int_of_string_err)

lemma py_int_overflow: "py_int v = Inl OverflowError \<longleftrightarrow> (\<exists>s. v = VFloat (Infinity s))"
proof (cases v)
  case (VFloat f)
  then show ?thesis by (cases f) auto
qed (auto dest: int_of_string_err)

lemma convert_int:
  "py_int v \<noteq> Inl OverflowError \<Longrightarrow>
   convert v int_callable = Inr (case py_int v of Inr n \<Rightarrow> VInt n | Inl e \<Rightarrow> VObject)"
  by (auto simp: convert_def int_callable_def split: sum.splits error.splits dest: py_int_err)

lemma metric_loop_ok:
  "distinct (map fst d @ map fst payload) \<Longrightarrow>
   \<forall>v \<in> snd ` set payload. py_int v \<noteq> Inl OverflowError \<Longrightarrow>
   metric_loop payload d =
     Inr (d @ map (\<lambda>(k, v). (k, case py_int v of Inr n \<Rightarrow> VInt n | Inl e \<Rightarrow> VObject)) payload)"
proof (induction payload arbitrary: d)
  case Nil
  then show ?case by simp
next
  case (Cons kv payload)
  obtain k v where kv: "kv = (k, v)" by (cases kv)
  have fresh: "k \<notin> fst ` set d" using Cons.prems(1) kv by auto
  have c: "convert v int_callable = Inr (case py_int v of Inr n \<Rightarrow> VInt n | Inl e \<Rightarrow> VObject)"
    using Cons.prems(2) kv by (intro convert_int) simp
  have d': "distinct (map fst (d @ [(k, case py_int v of Inr n \<Rightarrow> VInt n | Inl e \<Rightarrow> VObject)])
              @ map fst payload)"
    using Cons.prems(1) kv by auto
  have "\<forall>v \<in> snd ` set payload. py_int v \<noteq> Inl OverflowError"
    using Cons.prems(2) by simp
  from Cons.IH[OF d' this] show ?case
    by (simp add: kv c update_fresh[OF fresh])
qed

text \<open>
  C7, where the code does what it was written for. For every flat mapping (a dictionary:
  its keys are distinct) none of whose values is an infinite float, \<open>parse_metric_data\<close>
  returns, without raising, a mapping with the same keys in the same order, in which a
  value that \<open>int\<close> converts is replaced by that integer and every other value by the one
  sentinel, the class \<open>object\<close>; the sentinel differs from every integer, 0 included.
\<close>

theorem parse_metric_data_sentinel:
  assumes "distinct (map fst payload)"
      and "\<forall>v \<in> snd ` set payload. \<forall>s. v \<noteq> VFloat (Infinity s)"
  shows "parse_metric_data payload =
           Inr (map (\<lambda>(k, v). (k, case py_int v of Inr n \<Rightarrow> VInt n | Inl e \<Rightarrow> VObject)) payload)
         \<and> (\<forall>n. VObject \<noteq> VInt n)"
proof -
  have "\<forall>v \<in> snd ` set payload. py_int v \<noteq> Inl OverflowError"
    using assms(2) by (auto simp: py_int_overflow)
  then show ?thesis
    using assms(1) metric_loop_ok[of "[]" payload] by (simp add: parse_metric_data_def)
qed

theorem parse_metric_data_sentinel_witness:
  "parse_metric_data [(''a'', VStr ''12''), (''b'', VStr ''x'')] =
     Inr [(''a'', VInt 12), (''b'', VObject)]"
  using parse_metric_data_sentinel[of "[(''a'', VStr ''12''), (''b'', VStr ''x'')]"]
  by (simp add: int_of_string_def int_max_str_digits_def strip_def is_space_def is_digit_def)

text \<open>
  C7, as it is stated, says that the function never raises and that every value that does
  not convert becomes the sentinel. \<open>convert\<close> wraps the call to hand the sentinel back when
  the conversion fails, but it catches \<open>ValueError\<close> and \<open>TypeError\<close> only: \<open>int\<close> of an
  infinite float raises \<open>OverflowError\<close>, which leaves \<open>convert\<close> and \<open>parse_metric_data\<close>,
  where a NaN, which \<open>int\<close> refuses with \<open>ValueError\<close>, becomes the sentinel.
\<close>

theorem parse_metric_data_infinite_float:
  "parse_metric_data [(''a'', VFloat (Infinity False))] = Inl OverflowError"
  by (simp add: parse_metric_data_def convert_def int_callable_def)





section \<open>Properties of the event parser\<close>

lemma map_of_nth_distinct:
  "distinct (map fst d) \<Longrightarrow> i < length d \<Longrightarrow> map_of d (fst (d ! i)) = Some (snd (d ! i))"
  by (metis map_of_eq_Some_iff nth_mem prod.collapse)

text \<open>
  C8. For every delivery mapping with at least two keys (the keys of a dictionary are
  distinct) whose value at position 1 is a non-empty list, \<open>Event.__init__\<close> keeps the key
  at position 1 as the event family and element 0 of the list stored under that key as
  the event body.
\<close>

theorem Event_init_second_key:
  assumes "distinct (map fst data)"
      and "2 \<le> length data"
      and "snd (data ! 1) = VList (body # rest)"
  shows "Event_init data = Inr \<lparr>ev_type = fst (data ! 1), ev_payload = body\<rparr>"
proof -
  obtain kv0 kv1 kvs where d: "data = kv0 # kv1 # kvs"
    using assms(2) by (cases data; cases "tl data") auto
  have k1: "data ! 1 = kv1"
    using d by simp
  have "map_of data (fst (data ! 1)) = Some (snd (data ! 1))"
    using assms(1,2) by (intro map_of_nth_distinct) auto
  then have "dict_get data (fst kv1) = VList (body # rest)"
    using assms(3) unfolding k1 by (simp add: dict_get_def)
  moreover have "map fst data = fst kv0 # fst kv1 # map fst kvs"
    using d by simp
  ultimately show ?thesis
    unfolding k1 by (simp add: Event_init_def)
qed

theorem Event_init_second_key_witness:
  "Event_init [(''for_user_id'', VStr ''1''),
               (''follow_events'', VList [VDict [(''type'', VStr ''follow'')]])] =
     Inr \<lparr>ev_type = ''follow_events'', ev_payload = VDict [(''type'', VStr ''follow'')]\<rparr>"
  using Event_init_second_key
    [of "[(''for_user_id'', VStr ''1''),
          (''follow_events'', VList [VDict [(''type'', VStr ''follow'')]])]"
        "VDict [(''type'', VStr ''follow'')]" "[]"]
  by simp

text \<open>
  C9. For every tweet-delete payload (the first element of \<open>tweet_delete_events\<close> is a
  mapping whose \<open>status\<close> is a mapping with an \<open>id\<close> that \<open>int\<close> converts) whose tweet id is
  not a key of the tweet cache, \<open>parse_tweet_delete\<close> returns without an error, leaves the
  cache as it was and dispatches on the channel \<open>tweet_delete\<close> exactly one event,
  \<open>Message(None, tweet_id, 1)\<close>, which carries the id and no tweet.
\<close>

theorem parse_tweet_delete_placeholder:
  assumes "dict_get tweet_payload ''tweet_delete_events'' = VList (VDict event_payload # others)"
      and "dict_get event_payload ''status'' = VDict status"
      and "py_int (dict_get status ''id'') = Inr n"
      and "map_of (tweet_cache http) n = None"
  shows "parse_tweet_delete T tweet_payload http =
           (Inr (), http\<lparr>dispatched := dispatched http @
                             [(''tweet_delete'', Message VNone (dict_get status ''id'') (VInt 1))]\<rparr>)"
  using assms by (simp add: parse_tweet_delete_def dispatch_def)

theorem parse_tweet_delete_placeholder_witness:
  "parse_tweet_delete \<lparr>tweet_bool = (\<lambda>t::value. True), set_deleted_timestamp = (\<lambda>t n. t)\<rparr>
     [(''for_user_id'', VStr ''1''),
      (''tweet_delete_events'',
         VList [VDict [(''status'', VDict [(''id'', VStr ''42''), (''user_id'', VStr ''1'')]),
                       (''timestamp_ms'', VStr ''1000'')]])]
     \<lparr>tweet_cache = [(7, VInt 7)], dispatched = []\<rparr> =
   (Inr (), \<lparr>tweet_cache = [(7, VInt 7)],
             dispatched = [(''tweet_delete'', Message VNone (VStr ''42'') (VInt 1))]\<rparr>)"
  using parse_tweet_delete_placeholder
    [of "[(''for_user_id'', VStr ''1''),
          (''tweet_delete_events'',
             VList [VDict [(''status'', VDict [(''id'', VStr ''42''), (''user_id'', VStr ''1'')]),
                           (''timestamp_ms'', VStr ''1000'')]])]"
        "[(''status'', VDict [(''id'', VStr ''42''), (''user_id'', VStr ''1'')]),
          (''timestamp_ms'', VStr ''1000'')]"
        "[]"
        "[(''id'', VStr ''42''), (''user_id'', VStr ''1'')]"
        42
        "\<lparr>tweet_cache = [(7, VInt 7)], dispatched = []\<rparr>"
        "\<lparr>tweet_bool = (\<lambda>t::value. True), set_deleted_timestamp = (\<lambda>t n. t)\<rparr>"]
  by (simp add: dict_get_def int_of_string_def int_max_str_digits_def strip_def is_space_def is_digit_def)

section \<open>Properties of the pagination\<close>

subsection \<open>The sample pages, evaluated\<close>

lemmas sample_defs =
  raw_items_def single_page_def page_one_def page_two_def page_with_previous_def
  two_pages_def always_def first_cursor_def token_request_def single_cursor_def
  page_one_cursor_def page_two_cursor_def round_trip_cursor_def previous_cursor_def
  page_zero_cursor_def dict_get_def content_def page_request_def request_def
  load_response_def cache_page_def

lemma init_single:
  "Pagination_init raw_items single_page ''users'' (VDict []) = Inr single_cursor"
  by (simp add: Pagination_init_def sample_defs)

lemma init_one:
  "Pagination_init raw_items page_one ''users'' (VDict []) = Inr page_one_cursor"
  by (simp add: Pagination_init_def sample_defs)

lemma init_with_previous:
  "Pagination_init raw_items page_with_previous ''users'' (VDict []) = Inr previous_cursor"
  by (simp add: Pagination_init_def sample_defs)

lemma next_page_one:
  "next_page raw_items two_pages page_one_cursor [] =
     (Inr (), page_two_cursor, [token_request ''n''])"
  by (simp add: next_page_def sample_defs)

lemma previous_page_two:
  "previous_page raw_items two_pages page_two_cursor [token_request ''n''] =
     (Inr (), round_trip_cursor, [token_request ''n'', token_request ''p''])"
  by (simp add: previous_page_def sample_defs)

lemma previous_page_round_trip:
  "previous_page raw_items two_pages round_trip_cursor [token_request ''n'', token_request ''p''] =
     (Inl NoPageAvailable, round_trip_cursor, [token_request ''n'', token_request ''p''])"
  by (simp add: previous_page_def sample_defs)

lemma previous_page_zero:
  "previous_page raw_items (always page_with_previous) previous_cursor [] =
     (Inr (), page_zero_cursor, [token_request ''p''])"
  by (simp add: previous_page_def sample_defs)

lemma raw_items_never_no_page:
  "\<forall>x. item_type raw_items x \<noteq> Inl NoPageAvailable"
  "\<forall>x. item_id raw_items x \<noteq> Inl NoPageAvailable"
  "\<forall>a b. item_eq raw_items a b \<noteq> Inl NoPageAvailable"
proof -
  show "\<forall>x. item_type raw_items x \<noteq> Inl NoPageAvailable" by (simp add: raw_items_def)
  show "\<forall>a b. item_eq raw_items a b \<noteq> Inl NoPageAvailable" by (simp add: raw_items_def)
  show "\<forall>x. item_id raw_items x \<noteq> Inl NoPageAvailable"
  proof
    fix x :: "value"
    show "item_id raw_items x \<noteq> Inl NoPageAvailable"
      by (cases x) (simp_all add: raw_items_def)
  qed
qed

lemma next_page_stuck:
  "next_page raw_items (always page_without_meta) page_one_cursor [] =
     (Inl AttributeError, stuck_cursor, [token_request ''n''])"
  by (simp add: next_page_def sample_defs page_without_meta_def stuck_cursor_def)

lemma next_page_last:
  "next_page raw_items (first_then last_page page_one) page_one_cursor [] =
     (Inr (), last_page_cursor, [token_request ''n''])"
  by (simp add: next_page_def sample_defs last_page_def first_then_def last_page_cursor_def)

lemma previous_page_last:
  "previous_page raw_items (first_then last_page page_one) last_page_cursor [token_request ''n''] =
     (Inl NoPageAvailable, last_page_cursor, [token_request ''n''])"
  by (simp add: previous_page_def last_page_cursor_def)

subsection \<open>No token, no request\<close>

text \<open>
  C1. In every state of the object whose next token is absent (\<open>None\<close>, or any other falsy
  value), \<open>next_page\<close> raises \<open>NoPageAvailable\<close>, and it leaves the object and the list
  of issued requests as they were: nothing was fetched. The same holds for
  \<open>previous_page\<close> and the previous token.
\<close>

theorem no_token_no_fetch:
  "(\<not> truthy (next_token self) \<longrightarrow>
      next_page C srv self issued = (Inl NoPageAvailable, self, issued))
   \<and> (\<not> truthy (previous_token self) \<longrightarrow>
      previous_page C srv self issued = (Inl NoPageAvailable, self, issued))"
  by (simp add: next_page_def previous_page_def)

theorem no_token_no_fetch_witness:
  "Pagination_init raw_items single_page ''users'' (VDict []) = Inr single_cursor
   \<and> \<not> truthy (next_token single_cursor) \<and> \<not> truthy (previous_token single_cursor)
   \<and> next_page raw_items (always page_one) single_cursor []
       = (Inl NoPageAvailable, single_cursor, [])
   \<and> previous_page raw_items (always page_one) single_cursor []
       = (Inl NoPageAvailable, single_cursor, [])"
  using no_token_no_fetch [of single_cursor raw_items "always page_one" "[]"]
  by (simp add: init_single) (simp add: single_cursor_def first_cursor_def)

subsection \<open>A call that returns\<close>

lemma load_response_frame:
  "current_page_number (snd (load_response self res)) = current_page_number self"
  "pages_cache (snd (load_response self res)) = pages_cache self"
  "params (snd (load_response self res)) = params self"
  "endpoint_request (snd (load_response self res)) = endpoint_request self"
  unfolding load_response_def Let_def by (auto split: sum.splits)

lemma cache_page_frame:
  "current_page_number (snd (cache_page C prev self)) = current_page_number self"
  "page_payload (snd (cache_page C prev self)) = page_payload self"
  "original_payload (snd (cache_page C prev self)) = original_payload self"
  "meta (snd (cache_page C prev self)) = meta self"
  "next_token (snd (cache_page C prev self)) = next_token self"
  "previous_token (snd (cache_page C prev self)) = previous_token self"
  "params (snd (cache_page C prev self)) = params self"
  "endpoint_request (snd (cache_page C prev self)) = endpoint_request self"
  unfolding cache_page_def by (auto split: sum.splits list.splits)

lemma cache_page_Inr:
  assumes "fst (cache_page C prev self) = Inr u"
  shows "\<exists>p0 ps c0 cs same. prev = p0 # ps \<and> content C self = Inr (c0 # cs)
           \<and> item_eq C p0 c0 = Inr same
           \<and> (same \<longrightarrow> pages_cache (snd (cache_page C prev self)) = pages_cache self)
           \<and> (\<not> same \<longrightarrow> (\<exists>d. dict_of_items (item_id C) (c0 # cs) [] = Inr d
                 \<and> pages_cache (snd (cache_page C prev self)) =
                     AList.update (int (length (pages_cache self)) + 1) d (pages_cache self)))"
proof (cases prev)
  case Nil
  with assms show ?thesis by (simp add: cache_page_def)
next
  case (Cons p0 ps)
  note prev = Cons
  show ?thesis
  proof (cases "content C self")
    case (Inl e)
    with assms prev show ?thesis by (simp add: cache_page_def)
  next
    case (Inr items)
    note items = Inr
    show ?thesis
    proof (cases items)
      case Nil
      with assms prev items show ?thesis by (simp add: cache_page_def)
    next
      case (Cons c0 cs)
      note c = Cons
      show ?thesis
      proof (cases "item_eq C p0 c0")
        case (Inl e)
        with assms prev items c show ?thesis by (simp add: cache_page_def)
      next
        case (Inr same)
        note same = Inr
        show ?thesis
        proof (cases same)
          case True
          with prev items c same show ?thesis by (auto simp: cache_page_def)
        next
          case False
          show ?thesis
          proof (cases "dict_of_items (item_id C) (c0 # cs) []")
            case (Inl e)
            with assms prev items c same False show ?thesis
              by (simp add: cache_page_def del: dict_of_items.simps)
          next
            case (Inr d)
            with prev items c same False show ?thesis
              by (auto simp: cache_page_def simp del: dict_of_items.simps)
          qed
        qed
      qed
    qed
  qed
qed

lemma content_params [simp]: "content C (self\<lparr>params := ps\<rparr>) = content C self"
  by (simp add: content_def)

lemma consecutive_keys_fresh:
  "consecutive_keys cache \<Longrightarrow> int (length cache) + 1 \<notin> fst ` set cache"
proof
  assume c: "consecutive_keys cache" and m: "int (length cache) + 1 \<in> fst ` set cache"
  have "set (map fst cache) = set (map int [1..<Suc (length cache)])"
    using c unfolding consecutive_keys_def by (rule arg_cong)
  then have "fst ` set cache = int ` {1..<Suc (length cache)}"
    by (simp only: set_map set_upt)
  with m obtain k where "k \<in> {1..<Suc (length cache)}" "int (length cache) + 1 = int k"
    by blast
  then show False by simp
qed

lemma consecutive_keys_update:
  assumes "consecutive_keys cache"
  shows "AList.update (int (length cache) + 1) d cache = cache @ [(int (length cache) + 1, d)]"
    and "consecutive_keys (cache @ [(int (length cache) + 1, d)])"
proof -
  show "AList.update (int (length cache) + 1) d cache = cache @ [(int (length cache) + 1, d)]"
    using consecutive_keys_fresh[OF assms] by (rule update_fresh)
  show "consecutive_keys (cache @ [(int (length cache) + 1, d)])"
    using assms by (simp add: consecutive_keys_def)
qed

lemma dict_get_Nil [simp]: "dict_get [] k = VNone"
  by (simp add: dict_get_def)

lemma next_page_total:
  assumes "truthy (next_token self)"
      and "params self = VDict ps"
      and "srv issued (turn_request (endpoint_request self) (next_token self) ps) = Inr (VDict res)"
      and "dict_get res ''meta'' = VDict m"
      and "content C self = Inr (p0 # prev)"
      and "py_iter (dict_get res ''data'') = Inr ds"
      and "decode_all (item_type C) ds = Inr (c0 # cs)"
      and "item_eq C p0 c0 = Inr same"
      and "\<not> same \<longrightarrow> dict_of_items (item_id C) (c0 # cs) [] = Inr d"
  shows "next_page C srv self issued =
           (Inr (),
            turned self (next_token self) ps 1 res m
              (if same then pages_cache self
               else AList.update (int (length (pages_cache self)) + 1) d (pages_cache self)),
            issued @ [turn_request (endpoint_request self) (next_token self) ps])"
proof -
  have ne: "res \<noteq> []" using assms(4) by auto
  show ?thesis
    using assms ne
    unfolding next_page_def request_def load_response_def cache_page_def content_def Let_def
      page_request_def turn_request_def turned_def
    by (cases same) (simp_all del: dict_of_items.simps decode_all.simps)
qed

lemma previous_page_total:
  assumes "truthy (previous_token self)"
      and "params self = VDict ps"
      and "srv issued (turn_request (endpoint_request self) (previous_token self) ps) = Inr (VDict res)"
      and "dict_get res ''meta'' = VDict m"
      and "content C self = Inr (p0 # prev)"
      and "py_iter (dict_get res ''data'') = Inr ds"
      and "decode_all (item_type C) ds = Inr (c0 # cs)"
      and "item_eq C p0 c0 = Inr same"
      and "\<not> same \<longrightarrow> dict_of_items (item_id C) (c0 # cs) [] = Inr d"
  shows "previous_page C srv self issued =
           (Inr (),
            turned self (previous_token self) ps (- 1) res m
              (if same then pages_cache self
               else AList.update (int (length (pages_cache self)) + 1) d (pages_cache self)),
            issued @ [turn_request (endpoint_request self) (previous_token self) ps])"
proof -
  have ne: "res \<noteq> []" using assms(4) by auto
  show ?thesis
    using assms ne
    unfolding previous_page_def request_def load_response_def cache_page_def content_def Let_def
      page_request_def turn_request_def turned_def
    by (cases same) (simp_all del: dict_of_items.simps decode_all.simps)
qed

text \<open>
  C2, as the code has it. Let the next token be present and the parameters be a mapping;
  let the response to the request be a mapping whose \<open>meta\<close> is a mapping and whose \<open>data\<close>
  decodes to a non-empty list of items; let the content before the call be non-empty
  too, its first item \<open>p0\<close> comparable with the first item \<open>c0\<close> of the new content, and,
  when the two differ, let the ids of the new items be readable. Then \<open>next_page\<close>
  returns, having issued that one request; the page number is one more than before;
  \<open>original_payload\<close>, payload, meta and the two tokens are those of the response; and
  the cache is as it was when \<open>p0 == c0\<close>, and otherwise holds the dictionary of the new
  content under the key \<open>len(pages_cache) + 1\<close>, not under the page number, which on a
  cache with the keys \<open>1, ..., len(pages_cache)\<close> is one appended entry.
\<close>

theorem next_page_success:
  assumes "truthy (next_token self)"
      and "params self = VDict ps"
      and "srv issued (turn_request (endpoint_request self) (next_token self) ps) = Inr (VDict res)"
      and "dict_get res ''meta'' = VDict m"
      and "content C self = Inr (p0 # prev)"
      and "py_iter (dict_get res ''data'') = Inr ds"
      and "decode_all (item_type C) ds = Inr (c0 # cs)"
      and "item_eq C p0 c0 = Inr same"
      and "\<not> same \<longrightarrow> dict_of_items (item_id C) (c0 # cs) [] = Inr d"
  shows "next_page C srv self issued =
           (Inr (),
            turned self (next_token self) ps 1 res m
              (if same then pages_cache self
               else AList.update (int (length (pages_cache self)) + 1) d (pages_cache self)),
            issued @ [turn_request (endpoint_request self) (next_token self) ps])
       \<and> current_page_number (fst (snd (next_page C srv self issued))) = current_page_number self + 1
       \<and> content C (fst (snd (next_page C srv self issued))) = Inr (c0 # cs)
       \<and> (consecutive_keys (pages_cache self) \<longrightarrow>
            AList.update (int (length (pages_cache self)) + 1) d (pages_cache self) =
              pages_cache self @ [(int (length (pages_cache self)) + 1, d)])"
proof -
  note total = next_page_total[of self ps srv issued res m C p0 prev ds c0 cs same d, OF assms]
  have "content C (fst (snd (next_page C srv self issued))) = Inr (c0 # cs)"
    unfolding total using assms(6,7) by (simp add: turned_def content_def)
  moreover have "current_page_number (fst (snd (next_page C srv self issued))) = current_page_number self + 1"
    unfolding total by (simp add: turned_def)
  ultimately show ?thesis
    using total consecutive_keys_update(1)[of "pages_cache self" d] by simp
qed

theorem next_page_success_witness:
  "next_page raw_items two_pages page_one_cursor []
     = (Inr (), page_two_cursor, [token_request ''n''])
   \<and> current_page_number page_two_cursor = current_page_number page_one_cursor + 1
   \<and> original_payload page_two_cursor = page_two
   \<and> content raw_items page_two_cursor = Inr [VDict [(''id'', VInt 2)]]
   \<and> consecutive_keys (pages_cache page_one_cursor)
   \<and> pages_cache page_two_cursor =
       pages_cache page_one_cursor @ [(2, [(VInt 2, VDict [(''id'', VInt 2)])])]"
  using next_page_success [of page_one_cursor "[]" two_pages "[]"
          "[(''data'', VList [VDict [(''id'', VInt 2)]]),
            (''meta'', VDict [(''previous_token'', VStr ''p'')])]"
          "[(''previous_token'', VStr ''p'')]" raw_items
          "VDict [(''id'', VInt 1)]" "[]" "[VDict [(''id'', VInt 2)]]"
          "VDict [(''id'', VInt 2)]" "[]" False "[(VInt 2, VDict [(''id'', VInt 2)])]"]
  by (simp add: next_page_one)
     (simp add: sample_defs consecutive_keys_def turn_request_def turned_def)

text \<open>
  C2, as it is stated, asks only for a next token and a response. With a response that
  is a mapping without \<open>meta\<close>, \<open>next_page\<close> raises \<open>AttributeError\<close> at
  \<open>self._meta.get("next_token")\<close>: the page number and the payload have moved on, the
  meta is \<open>None\<close>, the next token is still the old one, and the cache has no new entry
  although the first items of the two pages differ.
\<close>

theorem next_page_response_without_meta:
  "truthy (next_token page_one_cursor)
   \<and> always page_without_meta [] (token_request ''n'') = Inr page_without_meta
   \<and> truthy page_without_meta
   \<and> next_page raw_items (always page_without_meta) page_one_cursor []
       = (Inl AttributeError, stuck_cursor, [token_request ''n''])
   \<and> current_page_number stuck_cursor = 2
   \<and> next_token stuck_cursor = next_token page_one_cursor
   \<and> meta stuck_cursor = VNone
   \<and> content raw_items page_one_cursor = Inr [VDict [(''id'', VInt 1)]]
   \<and> content raw_items stuck_cursor = Inr [VDict [(''id'', VInt 2)]]
   \<and> item_eq raw_items (VDict [(''id'', VInt 1)]) (VDict [(''id'', VInt 2)]) = Inr False
   \<and> pages_cache stuck_cursor = pages_cache page_one_cursor"
  by (simp add: next_page_stuck)
     (simp add: sample_defs page_without_meta_def stuck_cursor_def)

text \<open>
  The keys of the cache are \<open>1, ..., len(pages_cache)\<close> after the constructor and stay
  so over every call, whatever its outcome.
\<close>

lemma Pagination_init_keys:
  "Pagination_init C data endpoint kw = Inr s0 \<Longrightarrow> consecutive_keys (pages_cache s0)"
  unfolding Pagination_init_def Let_def
  by (auto split: sum.splits simp: consecutive_keys_def)

lemma cache_page_keys:
  assumes "consecutive_keys (pages_cache self)"
  shows "consecutive_keys (pages_cache (snd (cache_page C prev self)))"
proof (cases "fst (cache_page C prev self)")
  case (Inl e)
  have "snd (cache_page C prev self) = self"
    using Inl unfolding cache_page_def
    by (auto split: list.splits sum.splits if_splits simp del: dict_of_items.simps)
  with assms show ?thesis by simp
next
  case (Inr u)
  from cache_page_Inr[OF Inr] obtain same d where
    "same \<longrightarrow> pages_cache (snd (cache_page C prev self)) = pages_cache self"
    "\<not> same \<longrightarrow> pages_cache (snd (cache_page C prev self)) =
                     AList.update (int (length (pages_cache self)) + 1) d (pages_cache self)"
    by blast
  with assms consecutive_keys_update[OF assms, of d] show ?thesis by (cases same) simp_all
qed

lemma load_response_cache: "load_response self res = (out, s) \<Longrightarrow> pages_cache s = pages_cache self"
  using load_response_frame(2)[of self res] by simp

lemma next_page_keys:
  assumes "next_page C srv self issued = (out, self', issued')"
      and "consecutive_keys (pages_cache self)"
  shows "consecutive_keys (pages_cache self')"
  using assms cache_page_keys[of _ C]
  unfolding next_page_def request_def Let_def
  by (auto split: if_splits sum.splits prod.splits dest!: load_response_cache)

lemma previous_page_keys:
  assumes "previous_page C srv self issued = (out, self', issued')"
      and "consecutive_keys (pages_cache self)"
  shows "consecutive_keys (pages_cache self')"
  using assms cache_page_keys[of _ C]
  unfolding previous_page_def request_def Let_def
  by (auto split: if_splits sum.splits prod.splits dest!: load_response_cache)

subsection \<open>Forth and back\<close>

lemma Pagination_init_total:
  assumes "dict_get p ''meta'' = VDict m"
      and "py_iter (dict_get p ''data'') = Inr ds"
      and "decode_all (item_type C) ds = Inr items"
      and "dict_of_items (item_id C) items [] = Inr d"
  shows "Pagination_init C (VDict p) endpoint kw =
           Inr \<lparr>original_payload = VDict p, page_payload = dict_get p ''data'', meta = VDict m,
                next_token = dict_get m ''next_token'',
                previous_token = dict_get m ''previous_token'', count = 0, paginate_over = 0,
                current_page_number = 1, params = kw, endpoint_request = endpoint,
                pages_cache = [(1, d)]\<rparr>"
  using assms unfolding Pagination_init_def content_def Let_def
  by (simp del: dict_of_items.simps decode_all.simps)

text \<open>
  C3, as the code has it. Let the first page \<open>p1\<close> be a mapping whose \<open>meta\<close> is a mapping
  with a next token and whose \<open>data\<close> decodes to a non-empty list of items with readable
  ids, and let the constructor get a mapping \<open>ps0\<close> as parameters. Let the response to the
  next-token request be a mapping \<open>p2\<close> whose \<open>meta\<close> is a mapping with a previous token
  and whose \<open>data\<close> decodes to a non-empty list, and the response to the previous-token
  request that follows be \<open>p1\<close> again; let the first items of the two pages be comparable
  and, if they differ, the ids of the second page be readable. Then the constructor,
  \<open>next_page\<close> and \<open>previous_page\<close> all return, and \<open>content\<close> decodes to the items of
  the first page again, whose dictionary by id is the entry that the constructor cached
  for page 1; the page number is 1 again.
\<close>

theorem next_then_previous_round_trip:
  assumes "dict_get p1 ''meta'' = VDict m1"
      and "truthy (dict_get m1 ''next_token'')"
      and "py_iter (dict_get p1 ''data'') = Inr ds1"
      and "decode_all (item_type C) ds1 = Inr (a0 # as)"
      and "dict_of_items (item_id C) (a0 # as) [] = Inr d1"
      and "srv issued (turn_request endpoint (dict_get m1 ''next_token'') ps0) = Inr (VDict p2)"
      and "dict_get p2 ''meta'' = VDict m2"
      and "truthy (dict_get m2 ''previous_token'')"
      and "py_iter (dict_get p2 ''data'') = Inr ds2"
      and "decode_all (item_type C) ds2 = Inr (b0 # bs)"
      and "item_eq C a0 b0 = Inr same1"
      and "\<not> same1 \<longrightarrow> dict_of_items (item_id C) (b0 # bs) [] = Inr d2"
      and "srv (issued @ [turn_request endpoint (dict_get m1 ''next_token'') ps0])
             (turn_request endpoint (dict_get m2 ''previous_token'')
                (AList.update ''pagination_token'' (dict_get m1 ''next_token'') ps0))
             = Inr (VDict p1)"
      and "item_eq C b0 a0 = Inr same2"
  shows "\<exists>s0 s1 s2 issued1 issued2.
           Pagination_init C (VDict p1) endpoint (VDict ps0) = Inr s0
         \<and> next_page C srv s0 issued = (Inr (), s1, issued1)
         \<and> previous_page C srv s1 issued1 = (Inr (), s2, issued2)
         \<and> pages_cache s0 = [(1, d1)]
         \<and> content C s0 = Inr (a0 # as)
         \<and> content C s1 = Inr (b0 # bs)
         \<and> content C s2 = Inr (a0 # as)
         \<and> dict_of_items (item_id C) (a0 # as) [] = Inr d1
         \<and> current_page_number s2 = 1"
proof -
  define s0 where
    "s0 = \<lparr>original_payload = VDict p1, page_payload = dict_get p1 ''data'', meta = VDict m1,
           next_token = dict_get m1 ''next_token'',
           previous_token = dict_get m1 ''previous_token'', count = 0, paginate_over = 0,
           current_page_number = 1, params = VDict ps0, endpoint_request = endpoint,
           pages_cache = [(1, d1)]\<rparr>"
  define cache1 where
    "cache1 = (if same1 then pages_cache s0
               else AList.update (int (length (pages_cache s0)) + 1) d2 (pages_cache s0))"
  define s1 where "s1 = turned s0 (next_token s0) ps0 1 p2 m2 cache1"
  define ps1 where "ps1 = AList.update ''pagination_token'' (dict_get m1 ''next_token'') ps0"
  define cache2 where
    "cache2 = (if same2 then pages_cache s1
               else AList.update (int (length (pages_cache s1)) + 1) d1 (pages_cache s1))"
  define s2 where "s2 = turned s1 (previous_token s1) ps1 (- 1) p1 m1 cache2"
  have init: "Pagination_init C (VDict p1) endpoint (VDict ps0) = Inr s0"
    unfolding s0_def by (rule Pagination_init_total[OF assms(1,3,4,5)])
  have c0: "content C s0 = Inr (a0 # as)"
    using assms(3,4) by (simp add: s0_def content_def)
  have step1: "next_page C srv s0 issued =
                 (Inr (), s1, issued @ [turn_request endpoint (dict_get m1 ''next_token'') ps0])"
    using next_page_total[of s0 ps0 srv issued p2 m2 C a0 as ds2 b0 bs same1 d2]
          assms(2,6,7,9,10,11,12) c0
    by (simp add: s1_def cache1_def) (simp add: s0_def)
  have c1: "content C s1 = Inr (b0 # bs)"
    using assms(9,10) by (simp add: s1_def turned_def content_def)
  have t1: "previous_token s1 = dict_get m2 ''previous_token''" "params s1 = VDict ps1"
           "endpoint_request s1 = endpoint"
    by (simp_all add: s1_def turned_def ps1_def s0_def)
  have step2: "previous_page C srv s1 (issued @ [turn_request endpoint (dict_get m1 ''next_token'') ps0]) =
                 (Inr (), s2,
                  issued @ [turn_request endpoint (dict_get m1 ''next_token'') ps0,
                            turn_request endpoint (dict_get m2 ''previous_token'') ps1])"
    using previous_page_total[of s1 ps1 srv
            "issued @ [turn_request endpoint (dict_get m1 ''next_token'') ps0]"
            p1 m1 C b0 bs ds1 a0 as same2 d1]
          assms(1,3,4,5,8,13,14) c1 t1
    by (simp add: s2_def cache2_def ps1_def)
  have c2: "content C s2 = Inr (a0 # as)"
    using assms(3,4) by (simp add: s2_def turned_def content_def)
  have n2: "current_page_number s2 = 1"
    by (simp add: s2_def s1_def turned_def s0_def)
  have k0: "pages_cache s0 = [(1, d1)]" by (simp add: s0_def)
  show ?thesis
    using init step1 step2 k0 c0 c1 c2 assms(5) n2 by blast
qed

theorem next_then_previous_round_trip_witness:
  "Pagination_init raw_items page_one ''users'' (VDict []) = Inr page_one_cursor
   \<and> next_page raw_items two_pages page_one_cursor []
       = (Inr (), page_two_cursor, [token_request ''n''])
   \<and> previous_page raw_items two_pages page_two_cursor [token_request ''n'']
       = (Inr (), round_trip_cursor, [token_request ''n'', token_request ''p''])
   \<and> two_pages [token_request ''n''] (token_request ''p'') = Inr page_one
   \<and> content raw_items page_one_cursor = Inr [VDict [(''id'', VInt 1)]]
   \<and> content raw_items round_trip_cursor = Inr [VDict [(''id'', VInt 1)]]"
  using next_then_previous_round_trip [of
          "[(''data'', VList [VDict [(''id'', VInt 1)]]),
            (''meta'', VDict [(''next_token'', VStr ''n'')])]"
          "[(''next_token'', VStr ''n'')]"
          "[VDict [(''id'', VInt 1)]]" raw_items "VDict [(''id'', VInt 1)]" "[]"
          "[(VInt 1, VDict [(''id'', VInt 1)])]"
          two_pages "[]" "''users''" "[]"
          "[(''data'', VList [VDict [(''id'', VInt 2)]]),
            (''meta'', VDict [(''previous_token'', VStr ''p'')])]"
          "[(''previous_token'', VStr ''p'')]"
          "[VDict [(''id'', VInt 2)]]" "VDict [(''id'', VInt 2)]" "[]"
          False "[(VInt 2, VDict [(''id'', VInt 2)])]" False]
  by (simp add: init_one next_page_one previous_page_two)
     (simp add: sample_defs turn_request_def)

text \<open>
  C3, as it is stated, asks only for a next token on page 1, some second page and page 1
  as the answer to a previous-token request. With a second page that carries no previous
  token, \<open>next_page\<close> returns and \<open>previous_page\<close> raises \<open>NoPageAvailable\<close> without a
  request: \<open>content\<close> stays that of the second page, whose id is 2 and not 1.
\<close>

theorem second_page_without_previous_token:
  "Pagination_init raw_items page_one ''users'' (VDict []) = Inr page_one_cursor
   \<and> truthy (next_token page_one_cursor)
   \<and> first_then last_page page_one [] (token_request ''n'') = Inr last_page
   \<and> first_then last_page page_one [token_request ''n''] (token_request ''p'') = Inr page_one
   \<and> next_page raw_items (first_then last_page page_one) page_one_cursor []
       = (Inr (), last_page_cursor, [token_request ''n''])
   \<and> previous_page raw_items (first_then last_page page_one) last_page_cursor [token_request ''n'']
       = (Inl NoPageAvailable, last_page_cursor, [token_request ''n''])
   \<and> content raw_items page_one_cursor = Inr [VDict [(''id'', VInt 1)]]
   \<and> content raw_items last_page_cursor = Inr [VDict [(''id'', VInt 2)]]
   \<and> item_id raw_items (VDict [(''id'', VInt 1)]) = Inr (VInt 1)
   \<and> item_id raw_items (VDict [(''id'', VInt 2)]) = Inr (VInt 2)"
  by (simp add: init_one next_page_last previous_page_last)
     (simp add: sample_defs first_then_def last_page_cursor_def)

subsection \<open>The page number\<close>

lemma py_get_err: "py_get x k = Inl e \<Longrightarrow> e = AttributeError"
  by (cases x) auto

lemma load_response_err: "fst (load_response self res) = Inl e \<Longrightarrow> e = AttributeError"
  unfolding load_response_def Let_def
  by (auto split: sum.splits dest: py_get_err)

lemma decode_all_err: "decode_all f xs = Inl e \<Longrightarrow> \<exists>x. f x = Inl e"
  by (induction xs) (auto split: sum.splits)

lemma py_iter_err: "py_iter v = Inl e \<Longrightarrow> e = TypeError"
  by (cases v) auto

lemma content_err:
  "content C self = Inl e \<Longrightarrow> e = TypeError \<or> (\<exists>x. item_type C x = Inl e)"
  unfolding content_def
  by (auto split: sum.splits dest: py_iter_err decode_all_err)

lemma dict_of_items_err: "dict_of_items idf xs d = Inl e \<Longrightarrow> \<exists>x. idf x = Inl e"
  by (induction xs arbitrary: d) (auto split: sum.splits)

lemma cache_page_err:
  assumes "fst (cache_page C prev self) = Inl e"
  shows "e = IndexError \<or> e = TypeError \<or> (\<exists>x. item_type C x = Inl e)
           \<or> (\<exists>x. item_id C x = Inl e) \<or> (\<exists>a b. item_eq C a b = Inl e)"
proof (cases prev)
  case Nil
  with assms show ?thesis by (simp add: cache_page_def)
next
  case (Cons p0 ps)
  note prev = Cons
  show ?thesis
  proof (cases "content C self")
    case (Inl e')
    with assms prev have "e' = e" by (simp add: cache_page_def)
    with Inl content_err[of C self e] show ?thesis by blast
  next
    case (Inr items)
    note items = Inr
    show ?thesis
    proof (cases items)
      case Nil
      with assms prev items show ?thesis by (simp add: cache_page_def)
    next
      case (Cons c0 cs)
      note c = Cons
      show ?thesis
      proof (cases "item_eq C p0 c0")
        case (Inl e')
        with assms prev items c have "e' = e" by (simp add: cache_page_def)
        with Inl show ?thesis by blast
      next
        case (Inr same)
        note same = Inr
        show ?thesis
        proof (cases same)
          case True
          with assms prev items c same show ?thesis by (simp add: cache_page_def)
        next
          case False
          show ?thesis
          proof (cases "dict_of_items (item_id C) (c0 # cs) []")
            case (Inl e')
            with assms prev items c same False have "e' = e"
              by (simp add: cache_page_def del: dict_of_items.simps)
            with Inl dict_of_items_err[of "item_id C" "c0 # cs" "[]" e] show ?thesis by blast
          next
            case (Inr d)
            with assms prev items c same False show ?thesis
              by (simp add: cache_page_def del: dict_of_items.simps)
          qed
        qed
      qed
    qed
  qed
qed

lemma cache_page_no_page:
  assumes "(\<forall>x. item_type C x \<noteq> Inl NoPageAvailable)"
      and "(\<forall>x. item_id C x \<noteq> Inl NoPageAvailable)"
      and "(\<forall>a b. item_eq C a b \<noteq> Inl NoPageAvailable)"
  shows "fst (cache_page C prev self) \<noteq> Inl NoPageAvailable"
  using cache_page_err[of C prev self NoPageAvailable] assms by auto

lemma load_response_no_page: "fst (load_response self res) \<noteq> Inl NoPageAvailable"
  using load_response_err[of self res NoPageAvailable] by auto

lemma load_response_no_page': "load_response self res \<noteq> (Inl NoPageAvailable, s)"
  using load_response_no_page[of self res] by auto

lemma load_response_snd: "load_response self res = (out, s) \<Longrightarrow> current_page_number s = current_page_number self"
  using load_response_frame(1)[of self res] by simp

lemma next_page_no_page:
  assumes "next_page C srv self issued = (Inl NoPageAvailable, self', issued')"
      and "(\<forall>x. item_type C x \<noteq> Inl NoPageAvailable)"
      and "(\<forall>x. item_id C x \<noteq> Inl NoPageAvailable)"
      and "(\<forall>a b. item_eq C a b \<noteq> Inl NoPageAvailable)"
  shows "current_page_number self' = current_page_number self"
  using assms(1) cache_page_no_page[OF assms(2-4)]
  unfolding next_page_def request_def Let_def
  by (auto split: if_splits sum.splits prod.splits simp: load_response_no_page')

lemma previous_page_no_page:
  assumes "previous_page C srv self issued = (Inl NoPageAvailable, self', issued')"
      and "(\<forall>x. item_type C x \<noteq> Inl NoPageAvailable)"
      and "(\<forall>x. item_id C x \<noteq> Inl NoPageAvailable)"
      and "(\<forall>a b. item_eq C a b \<noteq> Inl NoPageAvailable)"
  shows "current_page_number self' = current_page_number self"
  using assms(1) cache_page_no_page[OF assms(2-4)]
  unfolding previous_page_def request_def Let_def
  by (auto split: if_splits sum.splits prod.splits simp: load_response_no_page')

lemma next_page_Inr_number:
  assumes "next_page C srv self issued = (Inr u, self', issued')"
  shows "current_page_number self' = current_page_number self + 1"
  using assms unfolding next_page_def request_def Let_def
  by (auto split: if_splits sum.splits prod.splits simp: cache_page_frame dest: load_response_snd)

lemma previous_page_Inr_number:
  assumes "previous_page C srv self issued = (Inr u, self', issued')"
  shows "current_page_number self' = current_page_number self - 1"
  using assms unfolding previous_page_def request_def Let_def
  by (auto split: if_splits sum.splits prod.splits simp: cache_page_frame dest: load_response_snd)

lemma call_page_number:
  assumes "call_page C srv c self issued = (out, self', issued')"
      and "out = Inr () \<or> out = Inl NoPageAvailable"
      and "(\<forall>x. item_type C x \<noteq> Inl NoPageAvailable)"
      and "(\<forall>x. item_id C x \<noteq> Inl NoPageAvailable)"
      and "(\<forall>a b. item_eq C a b \<noteq> Inl NoPageAvailable)"
  shows "current_page_number self' = current_page_number self + page_delta c out"
proof (cases c)
  case NextPage
  with assms show ?thesis
    using next_page_Inr_number[of C srv self issued "()" self' issued']
          next_page_no_page[of C srv self issued self' issued']
    by auto
next
  case PreviousPage
  with assms show ?thesis
    using previous_page_Inr_number[of C srv self issued "()" self' issued']
          previous_page_no_page[of C srv self issued self' issued']
    by auto
qed

lemma run_number:
  assumes "(\<forall>x. item_type C x \<noteq> Inl NoPageAvailable)"
      and "(\<forall>x. item_id C x \<noteq> Inl NoPageAvailable)"
      and "(\<forall>a b. item_eq C a b \<noteq> Inl NoPageAvailable)"
  shows "run C srv calls self issued = (outs, self', issued') \<Longrightarrow>
         \<forall>out \<in> set outs. out = Inr () \<or> out = Inl NoPageAvailable \<Longrightarrow>
         current_page_number self' = current_page_number self + sum_list (map2 page_delta calls outs)"
proof (induction calls arbitrary: self issued outs)
  case Nil
  then show ?case by simp
next
  case (Cons c cs)
  obtain out self1 issued1 where step: "call_page C srv c self issued = (out, self1, issued1)"
    by (cases "call_page C srv c self issued") auto
  obtain outs1 self2 issued2 where rest: "run C srv cs self1 issued1 = (outs1, self2, issued2)"
    by (cases "run C srv cs self1 issued1") auto
  from Cons.prems(1) step rest have eqs: "outs = out # outs1" "self' = self2" "issued' = issued2"
    by auto
  from rest eqs have rest': "run C srv cs self1 issued1 = (outs1, self', issued')" by simp
  from Cons.prems(2) eqs have o: "out = Inr () \<or> out = Inl NoPageAvailable"
    and os: "\<forall>out \<in> set outs1. out = Inr () \<or> out = Inl NoPageAvailable" by auto
  from call_page_number[OF step o assms]
  have "current_page_number self1 = current_page_number self + page_delta c out" .
  moreover from Cons.IH[OF rest' os]
  have "current_page_number self' = current_page_number self1 + sum_list (map2 page_delta cs outs1)" .
  ultimately show ?case using eqs by simp
qed

lemma Pagination_init_number:
  "Pagination_init C data endpoint kw = Inr s0 \<Longrightarrow> current_page_number s0 = 1"
  unfolding Pagination_init_def Let_def by (auto split: sum.splits)

text \<open>
  C4, as the code has it. The page number is 1 after the constructor. After a sequence of
  calls each of which returned or raised \<open>NoPageAvailable\<close>, on an item class that does
  not raise \<open>NoPageAvailable\<close> itself, it is 1 plus the number of \<open>next_page\<close> calls that
  returned minus the number of \<open>previous_page\<close> calls that returned. No lower bound holds.
\<close>

theorem page_number_counts_turns:
  assumes "Pagination_init C data endpoint kw = Inr s0"
      and "run C srv calls s0 issued = (outs, s', issued')"
      and "\<forall>out \<in> set outs. out = Inr () \<or> out = Inl NoPageAvailable"
      and "\<forall>x. item_type C x \<noteq> Inl NoPageAvailable"
      and "\<forall>x. item_id C x \<noteq> Inl NoPageAvailable"
      and "\<forall>a b. item_eq C a b \<noteq> Inl NoPageAvailable"
  shows "current_page_number s0 = 1
       \<and> current_page_number s' = 1 + sum_list (map2 page_delta calls outs)"
  using Pagination_init_number[OF assms(1)] run_number[OF assms(4-6) assms(2,3)] by simp

theorem page_number_counts_turns_witness:
  "Pagination_init raw_items page_one ''users'' (VDict []) = Inr page_one_cursor
   \<and> run raw_items two_pages [NextPage, PreviousPage, PreviousPage] page_one_cursor []
       = ([Inr (), Inr (), Inl NoPageAvailable], round_trip_cursor,
          [token_request ''n'', token_request ''p''])
   \<and> current_page_number page_one_cursor = 1
   \<and> current_page_number round_trip_cursor = 1 + (1 + (- 1 + 0))"
  using page_number_counts_turns [of raw_items page_one "''users''" "VDict []" page_one_cursor
          two_pages "[NextPage, PreviousPage, PreviousPage]" "[]"
          "[Inr (), Inr (), Inl NoPageAvailable]" round_trip_cursor
          "[token_request ''n'', token_request ''p'']"]
        raw_items_never_no_page
  by (simp add: init_one next_page_one previous_page_two previous_page_round_trip)

text \<open>
  C4, as it is stated, says that the page number stays at least 1. An object built from a
  page that carries a previous token is on page 1; \<open>previous_page\<close> returns on it and
  leaves the page number 0.
\<close>

theorem previous_page_reaches_page_zero:
  "Pagination_init raw_items page_with_previous ''users'' (VDict []) = Inr previous_cursor
   \<and> current_page_number previous_cursor = 1
   \<and> previous_page raw_items (always page_with_previous) previous_cursor []
       = (Inr (), page_zero_cursor, [token_request ''p''])
   \<and> current_page_number page_zero_cursor = 0"
  by (simp add: init_with_previous previous_page_zero)
     (simp add: page_zero_cursor_def previous_cursor_def first_cursor_def)

end
